theory Spec2Isabelle
  imports Main
begin

section \<open>GeminiResponseHandler: the relay and its collaborators\<close>

text \<open>
  The class \<^verbatim>\<open>GeminiResponseHandler\<close> (src/agents/gemini/GeminiResponseHandler.ts) streams
  one model response into a chat message. Its four private fields are the relay state; the
  model session, the chat client, the channel, the disposal callback and the search service
  are external. The embedding keeps the fields in a record together with a log of every call
  the handler makes on a collaborator, in the order the calls are made, and takes the
  behaviour of the collaborators as an explicit environment.

  Left out are the output on the console, and stop events that arrive while the relay waits
  for a status event, for the update of \<^verbatim>\<open>handleError\<close> or for the search. (A stop event
  that arrives while the relay waits for the answer to a prompt, or for the full response,
  acts like one before the first chunk, or after the last one, of the stream.) The calls
  \<^verbatim>\<open>chatClient.off\<close> and \<^verbatim>\<open>onDispose\<close> are taken to return, and so are the updates that
  \<^verbatim>\<open>run\<close> does not await, whose promises nothing observes.
\<close>

subsection \<open>Values\<close>

text \<open>
  A thrown JavaScript value: \<^verbatim>\<open>error.message\<close> (absent when it is nullish) and the text
  that \<^verbatim>\<open>error.toString()\<close> gives.
\<close>

record js_error =
  err_message :: "string option"
  err_string :: string

text \<open>The fields \<^verbatim>\<open>cid\<close> and \<^verbatim>\<open>id\<close> of \<^verbatim>\<open>this.message\<close>.\<close>

record message =
  msg_cid :: string
  msg_id :: string

datatype ai_state = AI_STATE_GENERATING | AI_STATE_EXTERNAL_SOURCES | AI_STATE_ERROR

text \<open>The \<^verbatim>\<open>type\<close> of a channel event, with its \<^verbatim>\<open>ai_state\<close> when it has one.\<close>

datatype indicator = Ai_indicator_update ai_state | Ai_indicator_clear

text \<open>
  Calls on the collaborators:
  \<^item> \<^verbatim>\<open>channel.sendEvent({type, ai_state, cid, message_id})\<close>;
  \<^item> \<^verbatim>\<open>chatClient.partialUpdateMessage(id, {set: fields})\<close>, the fields in source order;
  \<^item> \<^verbatim>\<open>chat.sendMessageStream(text)\<close>;
  \<^item> the \<^verbatim>\<open>fetch\<close> of the search service, with the query of its body;
  \<^item> the disposal callback \<^verbatim>\<open>onDispose()\<close>.
\<close>

datatype call =
    Send_event indicator string string
  | Partial_update_message string "(string \<times> string) list"
  | Send_message_stream string
  | Fetch_search string
  | On_dispose

text \<open>
  The handler: \<^verbatim>\<open>message_text\<close>, \<^verbatim>\<open>chunk_counter\<close>, \<^verbatim>\<open>is_done\<close> and
  \<^verbatim>\<open>last_update_time\<close> are the fields of the class; \<open>listening\<close> says whether
  \<^verbatim>\<open>handleStopGenerating\<close> is registered on the chat client for \<^verbatim>\<open>ai_indicator.stop\<close>;
  \<open>calls\<close> is the log.
\<close>

record handler =
  message_text :: string
  chunk_counter :: nat
  is_done :: bool
  last_update_time :: int
  listening :: bool
  calls :: "call list"

text \<open>The field initialisers and the constructor, which registers the stop listener.\<close>

definition constructed :: handler where
  "constructed =
     \<lparr>message_text = [], chunk_counter = 0, is_done = False, last_update_time = 0,
      listening = True, calls = []\<rparr>"

subsection \<open>The environment\<close>

text \<open>
  What the relay sees while it iterates a response stream: a chunk whose \<^verbatim>\<open>text()\<close>
  returns a string, read at the clock value \<^verbatim>\<open>Date.now()\<close> would give; a chunk whose
  \<^verbatim>\<open>text()\<close> throws; the iterator itself throwing; and an \<^verbatim>\<open>ai_indicator.stop\<close> event
  with its \<^verbatim>\<open>message_id\<close>, which the chat client delivers while the relay is suspended
  waiting for the next chunk. The end of the list is the end of the stream.
\<close>

datatype stream_event =
    Fragment string int
  | Fragment_throws js_error
  | Stream_error js_error
  | Stop_signal string

text \<open>A tool-call request; \<open>fc_args\<close> is the \<^verbatim>\<open>query\<close> of \<^verbatim>\<open>args\<close>, absent when
  \<^verbatim>\<open>args\<close> is nullish (reading \<^verbatim>\<open>args.query\<close> then throws a TypeError).\<close>

record function_call =
  fc_name :: string
  fc_args :: "string option"

text \<open>
  What \<^verbatim>\<open>chat.sendMessageStream\<close> resolves to: the stream, and what
  \<^verbatim>\<open>(await result.response).functionCalls()\<close> gives (it may throw, and it may be
  \<^verbatim>\<open>undefined\<close>).
\<close>

record reply =
  reply_stream :: "stream_event list"
  reply_function_calls :: "js_error + function_call list option"

text \<open>
  What the search request does: \<^verbatim>\<open>fetch\<close> (or reading the body) throws, with the message
  of the thrown value when it is an \<^verbatim>\<open>Error\<close>; a response that is not \<^verbatim>\<open>ok\<close>, with its
  status and body text; a response that is \<^verbatim>\<open>ok\<close>, with \<^verbatim>\<open>JSON.stringify\<close> of its
  parsed body.
\<close>

datatype fetch_result =
    Fetch_throws "string option"
  | Http_failure nat string
  | Http_ok string

text \<open>
  The environment of one relay. \<open>fault i\<close> is the error with which the awaited call logged
  at position \<open>i\<close> rejects, if it does; \<open>fetched i\<close> is the outcome of the fetch logged at
  position \<open>i\<close>; \<open>api_key\<close> is \<^verbatim>\<open>process.env.TAVILY_API_KEY\<close>.
\<close>

record env =
  fault :: "nat \<Rightarrow> js_error option"
  api_key :: "string option"
  fetched :: "nat \<Rightarrow> fetch_result"
  first_reply :: reply
  follow_up_reply :: reply

subsection \<open>Actions\<close>

text \<open>
  An asynchronous method either returns or throws, and changes the handler either way.
\<close>

type_synonym 'a action = "handler \<Rightarrow> (js_error + 'a) \<times> handler"

definition returns :: "'a \<Rightarrow> 'a action" where
  "returns x w = (Inr x, w)"

definition and_then :: "'a action \<Rightarrow> ('a \<Rightarrow> 'b action) \<Rightarrow> 'b action" where
  "and_then m k w = (case m w of (Inl e, w') \<Rightarrow> (Inl e, w') | (Inr x, w') \<Rightarrow> k x w')"

text \<open>A call that is not awaited: it is made, and its outcome is never looked at.\<close>

definition post :: "call \<Rightarrow> handler \<Rightarrow> handler" where
  "post c w = w\<lparr>calls := calls w @ [c]\<rparr>"

text \<open>An awaited call: it is made, and it returns or rejects as the environment says.\<close>

definition awaited :: "env \<Rightarrow> call \<Rightarrow> unit action" where
  "awaited env c w =
     (case fault env (length (calls w)) of
        Some e \<Rightarrow> (Inl e, post c w)
      | None \<Rightarrow> (Inr (), post c w))"

definition sendEvent :: "env \<Rightarrow> indicator \<Rightarrow> message \<Rightarrow> unit action" where
  "sendEvent env ind msg = awaited env (Send_event ind (msg_cid msg) (msg_id msg))"

definition sendMessageStream :: "env \<Rightarrow> string \<Rightarrow> reply \<Rightarrow> reply action" where
  "sendMessageStream env prompt r =
     and_then (awaited env (Send_message_stream prompt)) (\<lambda>_. returns r)"

subsection \<open>dispose, handleStopGenerating, handleError\<close>

text \<open>
  Lines 140 to 147: a handler that is done stays as it is; otherwise \<^verbatim>\<open>is_done\<close> is set,
  the stop listener is removed and the disposal callback is called.
\<close>

definition dispose :: "handler \<Rightarrow> handler" where
  "dispose w =
     (if is_done w then w
      else post On_dispose (w\<lparr>is_done := True, listening := False\<rparr>))"

text \<open>Lines 149 to 162, with the \<^verbatim>\<open>message_id\<close> of the event.\<close>

definition handleStopGenerating :: "env \<Rightarrow> message \<Rightarrow> string \<Rightarrow> unit action" where
  "handleStopGenerating env msg event_message_id w =
     (if is_done w \<or> event_message_id \<noteq> msg_id msg then (Inr (), w)
      else and_then (sendEvent env Ai_indicator_clear msg)
             (\<lambda>_ w'. (Inr (), dispose w')) w)"

text \<open>Lines 164 to 181; the update of the message is awaited here.\<close>

definition handleError :: "env \<Rightarrow> message \<Rightarrow> js_error \<Rightarrow> unit action" where
  "handleError env msg error w =
     (if is_done w then (Inr (), w)
      else and_then (sendEvent env (Ai_indicator_update AI_STATE_ERROR) msg)
             (\<lambda>_. and_then
                (awaited env (Partial_update_message (msg_id msg)
                   [(''text'', (case err_message error of
                                  Some m \<Rightarrow> m
                                | None \<Rightarrow> ''Error generating the message'')),
                    (''message'', err_string error)]))
                (\<lambda>_ w'. (Inr (), dispose w'))) w)"

text \<open>
  The chat client calls the listener for an \<^verbatim>\<open>ai_indicator.stop\<close> event only while it is
  registered; a rejection of the listener's promise reaches nobody.
\<close>

definition deliver :: "env \<Rightarrow> message \<Rightarrow> string \<Rightarrow> handler \<Rightarrow> handler" where
  "deliver env msg event_message_id w =
     (if listening w then snd (handleStopGenerating env msg event_message_id w) else w)"

subsection \<open>The stream loop\<close>

text \<open>Lines 46 to 54 (and 106 to 114): a chunk with a non-empty text.\<close>

definition on_chunk_text :: "message \<Rightarrow> string \<Rightarrow> int \<Rightarrow> handler \<Rightarrow> handler" where
  "on_chunk_text msg chunkText now w =
     (let w1 = w\<lparr>message_text := message_text w @ chunkText\<rparr>;
          w2 = (if now - last_update_time w1 > 1000
                then (post (Partial_update_message (msg_id msg)
                              [(''text'', message_text w1)]) w1)\<lparr>last_update_time := now\<rparr>
                else w1)
      in w2\<lparr>chunk_counter := chunk_counter w2 + 1\<rparr>)"

text \<open>The \<^verbatim>\<open>for await\<close> loops of lines 39 to 56 and 99 to 116.\<close>

fun consume :: "env \<Rightarrow> message \<Rightarrow> stream_event list \<Rightarrow> unit action" where
  "consume env msg [] w = (Inr (), w)"
| "consume env msg (Stop_signal event_message_id # rest) w =
     consume env msg rest (deliver env msg event_message_id w)"
| "consume env msg (Stream_error e # rest) w = (Inl e, w)"
| "consume env msg (Fragment_throws e # rest) w =
     (if is_done w then (Inr (), w) else (Inl e, w))"
| "consume env msg (Fragment chunkText now # rest) w =
     (if is_done w then (Inr (), w)
      else consume env msg rest
             (if chunkText \<noteq> [] then on_chunk_text msg chunkText now w else w))"

subsection \<open>The search tool\<close>

text \<open>\<^verbatim>\<open>Array.prototype.join\<close> on strings.\<close>

fun join :: "string \<Rightarrow> string list \<Rightarrow> string" where
  "join sep [] = []"
| "join sep [x] = x"
| "join sep (x # y # ys) = x @ sep @ join sep (y # ys)"

text \<open>
  \<^verbatim>\<open>JSON.stringify\<close> of a string: quoted, with the quote, the backslash and the control
  characters escaped.
\<close>

definition hex_digit :: "nat \<Rightarrow> char" where
  "hex_digit n = ''0123456789abcdef'' ! (n mod 16)"

definition json_char :: "char \<Rightarrow> string" where
  "json_char c =
     (if c = CHR 0x22 then [CHR 0x5C, CHR 0x22]
      else if c = CHR 0x5C then [CHR 0x5C, CHR 0x5C]
      else if c = CHR 0x08 then [CHR 0x5C, CHR ''b'']
      else if c = CHR 0x0C then [CHR 0x5C, CHR ''f'']
      else if c = CHR 0x0A then [CHR 0x5C, CHR ''n'']
      else if c = CHR 0x0D then [CHR 0x5C, CHR ''r'']
      else if c = CHR 0x09 then [CHR 0x5C, CHR ''t'']
      else if (of_char c :: nat) < 32
      then [CHR 0x5C, CHR ''u'', CHR ''0'', CHR ''0'',
            hex_digit (of_char c div 16), hex_digit (of_char c mod 16)]
      else [c])"

definition json_string :: "string \<Rightarrow> string" where
  "json_string s = [CHR 0x22] @ concat (map json_char s) @ [CHR 0x22]"

text \<open>\<^verbatim>\<open>JSON.stringify\<close> of an object literal whose values are strings.\<close>

definition stringify :: "(string \<times> string) list \<Rightarrow> string" where
  "stringify props =
     ''{'' @ join '','' (map (\<lambda>(k, v). json_string k @ '':'' @ json_string v) props) @ ''}''"

text \<open>A number in a template literal: its decimal digits.\<close>

fun decimal :: "nat \<Rightarrow> string" where
  "decimal n =
     (if n < 10 then [''0123456789'' ! n]
      else decimal (n div 10) @ [''0123456789'' ! (n mod 10)])"

text \<open>
  Lines 183 to 233. Without a key no request is made. Every failure of the request ends in
  a JSON text that is returned: the method itself never throws.
\<close>

definition performWebSearch :: "env \<Rightarrow> string \<Rightarrow> handler \<Rightarrow> string \<times> handler" where
  "performWebSearch env query w =
     (if api_key env = None \<or> api_key env = Some []
      then (stringify [(''error'', ''Web search is not available. API key not configured.'')], w)
      else
        (case fetched env (length (calls w)) of
           Fetch_throws m \<Rightarrow>
             (stringify [(''error'', ''An exception occurred during the search.''),
                         (''message'', (case m of Some t \<Rightarrow> t | None \<Rightarrow> ''Unknown error''))],
              post (Fetch_search query) w)
         | Http_failure status errorText \<Rightarrow>
             (stringify [(''error'', ''Search failed with status: '' @ decimal status),
                         (''details'', errorText)],
              post (Fetch_search query) w)
         | Http_ok data \<Rightarrow> (data, post (Fetch_search query) w)))"

subsection \<open>run\<close>

text \<open>Line 28.\<close>

definition fullPrompt :: "string \<Rightarrow> string \<Rightarrow> string" where
  "fullPrompt userMessage instructions =
     instructions @ ''\<newline>\<newline>User message: '' @ userMessage"

text \<open>An entry of \<^verbatim>\<open>functionResults\<close>.\<close>

record tool_result =
  name :: string
  response :: string

text \<open>Lines 70 to 90: the loop over the tool calls, with the \<^verbatim>\<open>try\<close> around each search.\<close>

fun call_tools ::
  "env \<Rightarrow> function_call list \<Rightarrow> tool_result list \<Rightarrow> handler \<Rightarrow> tool_result list \<times> handler"
where
  "call_tools env [] functionResults w = (functionResults, w)"
| "call_tools env (functionCall # rest) functionResults w =
     (if fc_name functionCall = ''web_search''
      then (case fc_args functionCall of
              None \<Rightarrow>
                call_tools env rest
                  (functionResults @
                     [\<lparr>name = fc_name functionCall,
                       response = stringify [(''error'', ''failed to call tool'')]\<rparr>]) w
            | Some query \<Rightarrow>
                (case performWebSearch env query w of
                   (searchResult, w') \<Rightarrow>
                     call_tools env rest
                       (functionResults @
                          [\<lparr>name = fc_name functionCall, response = searchResult\<rparr>]) w'))
      else call_tools env rest functionResults w)"

text \<open>Lines 94 to 96.\<close>

definition functionResultsText :: "tool_result list \<Rightarrow> string" where
  "functionResultsText functionResults =
     join ''\<newline>\<newline>''
       (map (\<lambda>result. ''Function: '' @ name result @ ''\<newline>Result: '' @ response result)
            functionResults)"

text \<open>Lines 61 to 118: the tool round.\<close>

definition tool_round :: "env \<Rightarrow> message \<Rightarrow> function_call list option \<Rightarrow> unit action" where
  "tool_round env msg functionCalls =
     (case functionCalls of
        None \<Rightarrow> returns ()
      | Some fcs \<Rightarrow>
          if length fcs > 0
          then and_then (sendEvent env (Ai_indicator_update AI_STATE_EXTERNAL_SOURCES) msg)
                 (\<lambda>_ w. case call_tools env fcs [] w of
                    (functionResults, w') \<Rightarrow>
                      if length functionResults > 0
                      then and_then
                             (sendMessageStream env (functionResultsText functionResults)
                                (follow_up_reply env))
                             (\<lambda>followUpResult. consume env msg (reply_stream followUpResult)) w'
                      else (Inr (), w'))
          else returns ())"

text \<open>Lines 28 to 118: everything of the \<^verbatim>\<open>try\<close> block before the final update.\<close>

definition generate :: "env \<Rightarrow> message \<Rightarrow> string \<Rightarrow> string \<Rightarrow> unit action" where
  "generate env msg userMessage instructions =
     and_then (sendEvent env (Ai_indicator_update AI_STATE_GENERATING) msg)
       (\<lambda>_. and_then
          (sendMessageStream env (fullPrompt userMessage instructions) (first_reply env))
          (\<lambda>result. and_then (consume env msg (reply_stream result))
             (\<lambda>_. and_then (\<lambda>w. (reply_function_calls result, w))
                (\<lambda>functionCalls. tool_round env msg functionCalls))))"

text \<open>Lines 120 to 129: the final update, which is not awaited, and the clear event.\<close>

definition finish :: "env \<Rightarrow> message \<Rightarrow> unit action" where
  "finish env msg w =
     sendEvent env Ai_indicator_clear msg
       (post (Partial_update_message (msg_id msg) [(''text'', message_text w)]) w)"

text \<open>The \<^verbatim>\<open>try\<close> block of \<^verbatim>\<open>run\<close>.\<close>

definition run_try :: "env \<Rightarrow> message \<Rightarrow> string \<Rightarrow> string \<Rightarrow> unit action" where
  "run_try env msg userMessage instructions =
     and_then (generate env msg userMessage instructions) (\<lambda>_. finish env msg)"

text \<open>
  \<^verbatim>\<open>run\<close>: the \<^verbatim>\<open>try\<close> block, \<^verbatim>\<open>handleError\<close> in the \<^verbatim>\<open>catch\<close>, \<^verbatim>\<open>dispose\<close> in the
  \<^verbatim>\<open>finally\<close>. The promise of \<^verbatim>\<open>run\<close> rejects when \<^verbatim>\<open>handleError\<close> does.
\<close>

definition run :: "env \<Rightarrow> message \<Rightarrow> string \<Rightarrow> string \<Rightarrow> unit action" where
  "run env msg userMessage instructions w =
     (case run_try env msg userMessage instructions w of
        (Inr u, w1) \<Rightarrow> (Inr u, dispose w1)
      | (Inl error, w1) \<Rightarrow>
          (case handleError env msg error w1 of (r, w2) \<Rightarrow> (r, dispose w2)))"

section \<open>Observations\<close>

text \<open>The calls that one \<^verbatim>\<open>run\<close> adds to the log.\<close>

definition run_calls :: "env \<Rightarrow> message \<Rightarrow> string \<Rightarrow> string \<Rightarrow> handler \<Rightarrow> call list" where
  "run_calls env msg userMessage instructions w =
     drop (length (calls w)) (calls (snd (run env msg userMessage instructions w)))"

text \<open>
  The events and updates of the relay's message: the clear event, an event with a state,
  the update of the text, and the update that \<^verbatim>\<open>handleError\<close> writes.
\<close>

definition clear_event :: "message \<Rightarrow> call" where
  "clear_event msg = Send_event Ai_indicator_clear (msg_cid msg) (msg_id msg)"

definition state_event :: "ai_state \<Rightarrow> message \<Rightarrow> call" where
  "state_event st msg = Send_event (Ai_indicator_update st) (msg_cid msg) (msg_id msg)"

definition text_update :: "message \<Rightarrow> string \<Rightarrow> call" where
  "text_update msg t = Partial_update_message (msg_id msg) [(''text'', t)]"

definition error_update :: "message \<Rightarrow> js_error \<Rightarrow> call" where
  "error_update msg error =
     Partial_update_message (msg_id msg)
       [(''text'', (case err_message error of
                      Some m \<Rightarrow> m
                    | None \<Rightarrow> ''Error generating the message'')),
        (''message'', err_string error)]"

text \<open>The calls a stream loop can make, those of the stop listener included.\<close>

definition stream_calls :: "message \<Rightarrow> call set" where
  "stream_calls msg = {clear_event msg, On_dispose} \<union> range (text_update msg)"

text \<open>
  The calls of the stream loops and of \<^verbatim>\<open>handleError\<close>: no prompt, no search and no
  announcement of external sources is among them.
\<close>

definition quiet_calls :: "message \<Rightarrow> call set" where
  "quiet_calls msg =
     stream_calls msg \<union> {state_event AI_STATE_ERROR msg} \<union> range (error_update msg)"

text \<open>\<open>adds S w w'\<close>: the log of \<open>w'\<close> is the log of \<open>w\<close> followed by calls of \<open>S\<close>.\<close>

definition adds :: "call set \<Rightarrow> handler \<Rightarrow> handler \<Rightarrow> bool" where
  "adds S w w' \<longleftrightarrow> (\<exists>xs. calls w' = calls w @ xs \<and> set xs \<subseteq> S)"

text \<open>
  The disposal callback has been called once if the handler is done and never otherwise, and
  a handler that is done no longer listens.
\<close>

definition consistent :: "handler \<Rightarrow> bool" where
  "consistent w \<longleftrightarrow>
     count_list (calls w) On_dispose = (if is_done w then 1 else 0) \<and>
     (is_done w \<longrightarrow> \<not> listening w)"

text \<open>The number of \<^verbatim>\<open>partialUpdateMessage\<close> calls in the log.\<close>

fun is_partial_update :: "call \<Rightarrow> bool" where
  "is_partial_update (Partial_update_message _ _) = True"
| "is_partial_update _ = False"

definition partial_updates :: "handler \<Rightarrow> nat" where
  "partial_updates w = length (filter is_partial_update (calls w))"

text \<open>The calls that send a prompt to the model session.\<close>

fun is_prompt :: "call \<Rightarrow> bool" where
  "is_prompt (Send_message_stream _) = True"
| "is_prompt _ = False"

text \<open>The stream events that make the loop throw.\<close>

fun throws :: "stream_event \<Rightarrow> bool" where
  "throws (Stream_error _) = True"
| "throws (Fragment_throws _) = True"
| "throws _ = False"



subsection \<open>The follow-up text of the specification\<close>

text \<open>
  The follow-up text in the words of the specification: each pair of a name and a response
  is written as \<^verbatim>\<open>Function: \<close>, the name, a line break, \<^verbatim>\<open>Result: \<close> and the response,
  and the pairs are separated by two line breaks. It is compared below with
  \<open>functionResultsText\<close>, which is lines 94 to 96 of the source.
\<close>

definition spec_pair_text :: "tool_result \<Rightarrow> string" where
  "spec_pair_text result = ''Function: '' @ name result @ ''\<newline>Result: '' @ response result"

fun spec_follow_up_text :: "tool_result list \<Rightarrow> string" where
  "spec_follow_up_text [] = []"
| "spec_follow_up_text [result] = spec_pair_text result"
| "spec_follow_up_text (result # next_result # results) =
     spec_pair_text result @ ''\<newline>\<newline>'' @ spec_follow_up_text (next_result # results)"

subsection \<open>Concrete inputs\<close>

text \<open>A message, and an environment in which every call is accepted and the model says nothing.\<close>

definition msg1 :: message where
  "msg1 = \<lparr>msg_cid = ''messaging:c1'', msg_id = ''m1''\<rparr>"

definition quiet_env :: env where
  "quiet_env =
     \<lparr>fault = (\<lambda>_. None), api_key = None, fetched = (\<lambda>_. Fetch_throws None),
      first_reply = \<lparr>reply_stream = [], reply_function_calls = Inr None\<rparr>,
      follow_up_reply = \<lparr>reply_stream = [], reply_function_calls = Inr None\<rparr>\<rparr>"

text \<open>Every awaited call is rejected.\<close>

definition failing_env :: env where
  "failing_env =
     quiet_env\<lparr>fault :=
       (\<lambda>_. Some \<lparr>err_message = Some ''offline'', err_string = ''Error: offline''\<rparr>)\<rparr>"

text \<open>A handler that has been disposed.\<close>

definition stopped :: handler where
  "stopped = dispose constructed"

text \<open>The stream breaks with an error after one chunk.\<close>

definition quota_error :: js_error where
  "quota_error =
     \<lparr>err_message = Some ''quota exceeded'', err_string = ''Error: quota exceeded''\<rparr>"

definition broken_stream_env :: env where
  "broken_stream_env =
     quiet_env\<lparr>first_reply :=
       \<lparr>reply_stream = [Fragment ''Sun'' 5000, Stream_error quota_error],
        reply_function_calls = Inr None\<rparr>\<rparr>"

text \<open>The model answers in two chunks, 400 ms apart, and asks for no tool.\<close>

definition sunny_env :: env where
  "sunny_env =
     quiet_env\<lparr>first_reply :=
       \<lparr>reply_stream = [Fragment ''Sun'' 5000, Fragment ''ny today'' 5400],
        reply_function_calls = Inr None\<rparr>\<rparr>"

text \<open>The model asks for a tool that is not \<^verbatim>\<open>web_search\<close>.\<close>

definition other_tool_env :: env where
  "other_tool_env =
     sunny_env\<lparr>first_reply :=
       \<lparr>reply_stream = [Fragment ''Sun'' 5000, Fragment ''ny today'' 5400],
        reply_function_calls =
          Inr (Some [\<lparr>fc_name = ''get_weather'', fc_args = Some ''Pune''\<rparr>])\<rparr>\<rparr>"

text \<open>The model asks for one search, which the service answers.\<close>

definition search_env :: env where
  \<open>search_env =
     \<lparr>fault = (\<lambda>_. None), api_key = Some ''tvly-key'',
      fetched = (\<lambda>_. Http_ok ''{"answer":"bar"}''),
      first_reply =
        \<lparr>reply_stream = [Fragment ''Searching.'' 5000],
         reply_function_calls =
           Inr (Some [\<lparr>fc_name = ''web_search'', fc_args = Some ''foo''\<rparr>])\<rparr>,
      follow_up_reply =
        \<lparr>reply_stream = [Fragment '' It is bar.'' 5200], reply_function_calls = Inr None\<rparr>\<rparr>\<close>



text \<open>
  A stop event for the relay's message arrives between two chunks of the first stream, and
  the model asks for a search.
\<close>

definition stop_mid_stream_env :: env where
  \<open>stop_mid_stream_env =
     \<lparr>fault = (\<lambda>_. None), api_key = Some ''tvly-key'',
      fetched = (\<lambda>_. Http_ok ''{"answer":"bar"}''),
      first_reply =
        \<lparr>reply_stream = [Fragment ''Hel'' 5000, Stop_signal ''m1'', Fragment ''lo'' 5100],
         reply_function_calls =
           Inr (Some [\<lparr>fc_name = ''web_search'', fc_args = Some ''foo''\<rparr>])\<rparr>,
      follow_up_reply =
        \<lparr>reply_stream = [Fragment ''more'' 9000], reply_function_calls = Inr None\<rparr>\<rparr>\<close>

section \<open>Basic facts\<close>

lemma post_simps [simp]:
  "calls (post c w) = calls w @ [c]"
  "is_done (post c w) = is_done w"
  "listening (post c w) = listening w"
  "message_text (post c w) = message_text w"
  "chunk_counter (post c w) = chunk_counter w"
  "last_update_time (post c w) = last_update_time w"
  by (simp_all add: post_def)

lemma awaited_snd [simp]: "snd (awaited env c w) = post c w"
  by (simp add: awaited_def split: option.split)

lemma dispose_simps [simp]:
  "is_done (dispose w) = True"
  "calls (dispose w) = (if is_done w then calls w else calls w @ [On_dispose])"
  "listening (dispose w) = (is_done w \<and> listening w)"
  "message_text (dispose w) = message_text w"
  "chunk_counter (dispose w) = chunk_counter w"
  "last_update_time (dispose w) = last_update_time w"
  by (simp_all add: dispose_def)

lemma and_then_returns [simp]: "and_then (returns x) k = k x"
  by (rule ext) (simp add: and_then_def returns_def)

lemma and_then_assoc: "and_then (and_then m f) g = and_then m (\<lambda>x. and_then (f x) g)"
  by (rule ext) (simp add: and_then_def split: prod.split sum.split)

subsection \<open>What each method adds to the log\<close>

lemma adds_refl [simp]: "adds S w w"
  by (simp add: adds_def)

lemma adds_trans: "adds S w w1 \<Longrightarrow> adds S w1 w2 \<Longrightarrow> adds S w w2"
  by (auto simp: adds_def)

lemma adds_post: "c \<in> S \<Longrightarrow> adds S w (post c w)"
  by (simp add: adds_def)

lemma adds_fields [simp]:
  "adds S w (w'\<lparr>message_text := t\<rparr>) = adds S w w'"
  "adds S w (w'\<lparr>chunk_counter := n\<rparr>) = adds S w w'"
  "adds S w (w'\<lparr>last_update_time := u\<rparr>) = adds S w w'"
  "adds S w (w'\<lparr>is_done := b\<rparr>) = adds S w w'"
  "adds S w (w'\<lparr>listening := b\<rparr>) = adds S w w'"
  by (simp_all add: adds_def)

lemma adds_and_then:
  assumes "\<And>w. adds S w (snd (m w))" and "\<And>x w. adds S w (snd (k x w))"
  shows "adds S w (snd (and_then m k w))"
proof (cases "m w")
  case (Pair r w')
  have p: "adds S w w'" using assms(1)[of w] Pair by simp
  show ?thesis
  proof (cases r)
    case (Inl e)
    then show ?thesis using Pair p by (simp add: and_then_def)
  next
    case (Inr x)
    have "adds S w' (snd (k x w'))" by (rule assms(2))
    then show ?thesis using Pair Inr p by (auto simp: and_then_def intro: adds_trans)
  qed
qed

lemma adds_awaited: "c \<in> S \<Longrightarrow> adds S w (snd (awaited env c w))"
  by (simp add: adds_post)

lemma adds_dispose: "On_dispose \<in> S \<Longrightarrow> adds S w (dispose w)"
  by (simp add: adds_def)

lemma adds_handleStopGenerating:
  assumes "clear_event msg \<in> S" and "On_dispose \<in> S"
  shows "adds S w (snd (handleStopGenerating env msg ev w))"
proof (cases "is_done w \<or> ev \<noteq> msg_id msg")
  case True
  then show ?thesis by (simp add: handleStopGenerating_def)
next
  case False
  have "adds S w (snd (and_then (sendEvent env Ai_indicator_clear msg) (\<lambda>_ w'. (Inr (), dispose w')) w))"
    using assms by (intro adds_and_then) (simp_all add: sendEvent_def adds_post clear_event_def adds_dispose)
  then show ?thesis using False by (simp add: handleStopGenerating_def)
qed

lemma adds_deliver:
  "clear_event msg \<in> S \<Longrightarrow> On_dispose \<in> S \<Longrightarrow> adds S w (deliver env msg ev w)"
  by (simp add: deliver_def adds_handleStopGenerating)

lemma adds_on_chunk_text:
  "range (text_update msg) \<subseteq> S \<Longrightarrow> adds S w (on_chunk_text msg t now w)"
  by (auto simp: on_chunk_text_def Let_def adds_def text_update_def)

lemma adds_consume:
  "stream_calls msg \<subseteq> S \<Longrightarrow> adds S w (snd (consume env msg evs w))"
proof (induction env msg evs w rule: consume.induct)
  case (2 env msg ev rest w)
  have "adds S w (deliver env msg ev w)"
    using 2(2) by (intro adds_deliver) (auto simp: stream_calls_def)
  then show ?case using 2 by (auto intro: adds_trans)
next
  case (5 env msg chunkText now rest w)
  have "adds S w (on_chunk_text msg chunkText now w)"
    using 5(2) by (intro adds_on_chunk_text) (auto simp: stream_calls_def)
  then show ?case using 5 by (auto intro: adds_trans)
qed simp_all

lemma sendEvent_clear: "sendEvent env Ai_indicator_clear msg = awaited env (clear_event msg)"
  by (simp add: sendEvent_def clear_event_def)

lemma sendEvent_state:
  "sendEvent env (Ai_indicator_update st) msg = awaited env (state_event st msg)"
  by (simp add: sendEvent_def state_event_def)

lemma adds_performWebSearch:
  "range Fetch_search \<subseteq> S \<Longrightarrow> adds S w (snd (performWebSearch env query w))"
  by (auto simp: performWebSearch_def split: fetch_result.split intro!: adds_post)

lemma adds_call_tools:
  "range Fetch_search \<subseteq> S \<Longrightarrow> adds S w (snd (call_tools env fcs acc w))"
proof (induction env fcs acc w rule: call_tools.induct)
  case (2 env functionCall rest functionResults w)
  show ?case
  proof (cases "fc_name functionCall = ''web_search''")
    case False
    then show ?thesis using 2 by simp
  next
    case web: True
    show ?thesis
    proof (cases "fc_args functionCall")
      case None
      then show ?thesis using 2 web by simp
    next
      case (Some query)
      obtain r w' where p: "performWebSearch env query w = (r, w')"
        by (cases "performWebSearch env query w")
      have "adds S w w'"
        using adds_performWebSearch[OF 2(4), of w env query] p by simp
      moreover have "adds S w' (snd (call_tools env rest
          (functionResults @ [\<lparr>name = fc_name functionCall, response = r\<rparr>]) w'))"
        using 2(2)[OF web Some p[symmetric] 2(4)] by simp
      ultimately show ?thesis using web Some p by (auto intro: adds_trans)
    qed
  qed
qed simp

lemma adds_sendMessageStream:
  "Send_message_stream p \<in> S \<Longrightarrow> adds S w (snd (sendMessageStream env p r w))"
  by (simp add: sendMessageStream_def and_then_def returns_def awaited_def adds_post
      split: option.split)

lemma adds_tool_round:
  assumes "state_event AI_STATE_EXTERNAL_SOURCES msg \<in> S" and "range Fetch_search \<subseteq> S"
    and "range Send_message_stream \<subseteq> S" and "stream_calls msg \<subseteq> S"
  shows "adds S w (snd (tool_round env msg functionCalls w))"
proof (cases functionCalls)
  case None
  then show ?thesis by (simp add: tool_round_def returns_def)
next
  case (Some fcs)
  show ?thesis
  proof (cases "length fcs > 0")
    case False
    then show ?thesis using Some by (simp add: tool_round_def returns_def)
  next
    case True
    have follow: "adds S w (snd (case call_tools env fcs [] w of
            (functionResults, w') \<Rightarrow>
              if length functionResults > 0
              then and_then
                     (sendMessageStream env (functionResultsText functionResults)
                        (follow_up_reply env))
                     (\<lambda>followUpResult. consume env msg (reply_stream followUpResult)) w'
              else (Inr (), w')))" for w
    proof (cases "call_tools env fcs [] w")
      case (Pair rs w')
      have a: "adds S w w'" using adds_call_tools[OF assms(2), of w env fcs "[]"] Pair by simp
      have "adds S w' (snd (and_then
                     (sendMessageStream env (functionResultsText rs) (follow_up_reply env))
                     (\<lambda>followUpResult. consume env msg (reply_stream followUpResult)) w'))"
        using assms(3,4) by (intro adds_and_then adds_sendMessageStream adds_consume) auto
      then show ?thesis using Pair a by (auto intro: adds_trans)
    qed
    have "adds S w (snd (and_then (awaited env (state_event AI_STATE_EXTERNAL_SOURCES msg))
                 (\<lambda>_ w. case call_tools env fcs [] w of
                    (functionResults, w') \<Rightarrow>
                      if length functionResults > 0
                      then and_then
                             (sendMessageStream env (functionResultsText functionResults)
                                (follow_up_reply env))
                             (\<lambda>followUpResult. consume env msg (reply_stream followUpResult)) w'
                      else (Inr (), w')) w))"
      using assms(1) follow by (intro adds_and_then adds_awaited) auto
    then show ?thesis using Some True by (simp add: tool_round_def sendEvent_state)
  qed
qed

lemma adds_generate: "adds UNIV w (snd (generate env msg u i w))"
  unfolding generate_def sendEvent_state
  by (intro adds_and_then adds_awaited adds_sendMessageStream adds_consume adds_tool_round)
     (simp_all add: adds_def)

lemma adds_finish: "adds UNIV w (snd (finish env msg w))"
  by (simp add: finish_def sendEvent_clear adds_def)

lemma adds_run_try: "adds UNIV w (snd (run_try env msg u i w))"
  unfolding run_try_def
  by (intro adds_and_then adds_generate adds_finish)

lemma adds_handleError: "adds UNIV w (snd (handleError env msg error w))"
proof (cases "is_done w")
  case True
  then show ?thesis by (simp add: handleError_def)
next
  case False
  have "adds UNIV w (snd (and_then (sendEvent env (Ai_indicator_update AI_STATE_ERROR) msg)
             (\<lambda>_. and_then
                (awaited env (Partial_update_message (msg_id msg)
                   [(''text'', (case err_message error of
                                  Some m \<Rightarrow> m
                                | None \<Rightarrow> ''Error generating the message'')),
                    (''message'', err_string error)]))
                (\<lambda>_ w'. (Inr (), dispose w'))) w))"
    unfolding sendEvent_state
    by (intro adds_and_then adds_awaited) (simp_all add: adds_def)
  then show ?thesis using False by (simp add: handleError_def)
qed

subsection \<open>The disposal invariant\<close>


lemma consistent_fields [simp]:
  "consistent (w\<lparr>message_text := t\<rparr>) = consistent w"
  "consistent (w\<lparr>chunk_counter := n\<rparr>) = consistent w"
  "consistent (w\<lparr>last_update_time := u\<rparr>) = consistent w"
  by (simp_all add: consistent_def)



















lemma adds_generate_run_try:
  "adds UNIV (snd (generate env msg u i w)) (snd (run_try env msg u i w))"
proof (cases "generate env msg u i w")
  case (Pair r w1)
  show ?thesis
  proof (cases r)
    case (Inl e)
    then show ?thesis using Pair by (simp add: run_try_def and_then_def)
  next
    case (Inr x)
    then show ?thesis using Pair adds_finish[of w1 env msg] by (simp add: run_try_def and_then_def)
  qed
qed

lemma adds_run_try_run: "adds UNIV (snd (run_try env msg u i w)) (snd (run env msg u i w))"
proof (cases "run_try env msg u i w")
  case (Pair r w1)
  show ?thesis
  proof (cases r)
    case (Inr x)
    have "adds UNIV w1 (dispose w1)" by (simp add: adds_dispose)
    then show ?thesis using Pair Inr by (simp add: run_def)
  next
    case (Inl error)
    obtain r2 w2 where h: "handleError env msg error w1 = (r2, w2)"
      by (cases "handleError env msg error w1")
    have "adds UNIV w1 w2" using adds_handleError[of w1 env msg error] h by simp
    moreover have "adds UNIV w2 (dispose w2)" by (simp add: adds_dispose)
    ultimately show ?thesis using Pair Inl h by (simp add: run_def) (blast intro: adds_trans)
  qed
qed

lemma generate_first_calls:
  assumes "fault env (length (calls w)) = None"
  shows "adds UNIV (post (Send_message_stream (fullPrompt u i))
                      (post (state_event AI_STATE_GENERATING msg) w))
           (snd (generate env msg u i w))"
proof -
  let ?w1 = "post (state_event AI_STATE_GENERATING msg) w"
  let ?w2 = "post (Send_message_stream (fullPrompt u i)) ?w1"
  let ?k = "\<lambda>result. and_then (consume env msg (reply_stream result))
             (\<lambda>_. and_then (\<lambda>w. (reply_function_calls result, w))
                (\<lambda>functionCalls. tool_round env msg functionCalls))"
  have k: "adds UNIV w' (snd (?k r w'))" for r w'
    by (intro adds_and_then adds_consume adds_tool_round) (simp_all add: adds_def)
  have g: "generate env msg u i w =
      (case fault env (length (calls ?w1)) of
         Some e \<Rightarrow> (Inl e, ?w2)
       | None \<Rightarrow> ?k (first_reply env) ?w2)"
    using assms
    by (simp add: generate_def sendEvent_state sendMessageStream_def and_then_def awaited_def
        returns_def split: option.split)
  show ?thesis
    unfolding g using k[of ?w2 "first_reply env"] by (simp split: option.split)
qed

lemma run_quiet:
  "run quiet_env msg1 ''hi'' ''Be concise'' constructed =
     (Inr (),
      \<lparr>message_text = [], chunk_counter = 0, is_done = True, last_update_time = 0,
       listening = False,
       calls = [Send_event (Ai_indicator_update AI_STATE_GENERATING) ''messaging:c1'' ''m1'',
                Send_message_stream ''Be concise\<newline>\<newline>User message: hi'',
                Partial_update_message ''m1'' [(''text'', [])],
                Send_event Ai_indicator_clear ''messaging:c1'' ''m1'',
                On_dispose]\<rparr>)"
  by (simp add: run_def run_try_def generate_def finish_def and_then_def sendEvent_def
      sendMessageStream_def awaited_def returns_def tool_round_def quiet_env_def msg1_def
      constructed_def post_def dispose_def fullPrompt_def)

subsection \<open>Evaluation\<close>

lemmas run_unfold =
  run_def run_try_def generate_def finish_def tool_round_def and_then_def sendEvent_def
  sendMessageStream_def awaited_def returns_def post_def dispose_def fullPrompt_def
  on_chunk_text_def deliver_def handleStopGenerating_def handleError_def Let_def
  performWebSearch_def functionResultsText_def

lemma generate_sunny:
  "generate sunny_env msg1 ''What is the weather?'' ''Be concise'' constructed =
     (Inr (),
      \<lparr>message_text = ''Sunny today'', chunk_counter = 2, is_done = False,
       last_update_time = 5000, listening = True,
       calls = [Send_event (Ai_indicator_update AI_STATE_GENERATING) ''messaging:c1'' ''m1'',
                Send_message_stream ''Be concise\<newline>\<newline>User message: What is the weather?'',
                Partial_update_message ''m1'' [(''text'', ''Sun'')]]\<rparr>)"
  by (simp add: run_unfold sunny_env_def quiet_env_def msg1_def constructed_def)

lemma generate_quiet:
  "generate quiet_env msg1 ''hi'' ''Be concise'' constructed =
     (Inr (),
      \<lparr>message_text = [], chunk_counter = 0, is_done = False,
       last_update_time = 0, listening = True,
       calls = [Send_event (Ai_indicator_update AI_STATE_GENERATING) ''messaging:c1'' ''m1'',
                Send_message_stream ''Be concise\<newline>\<newline>User message: hi'']\<rparr>)"
  by (simp add: run_unfold quiet_env_def msg1_def constructed_def)

subsection \<open>The throttle\<close>

lemma partial_updates_fields [simp]:
  "partial_updates (w\<lparr>message_text := t\<rparr>) = partial_updates w"
  "partial_updates (w\<lparr>chunk_counter := n\<rparr>) = partial_updates w"
  "partial_updates (w\<lparr>last_update_time := u\<rparr>) = partial_updates w"
  "partial_updates (post c w) = partial_updates w + (if is_partial_update c then 1 else 0)"
  by (simp_all add: partial_updates_def)

lemma deliver_frame:
  "partial_updates (deliver env msg ev w) = partial_updates w"
  "last_update_time (deliver env msg ev w) = last_update_time w"
  by (simp_all add: deliver_def handleStopGenerating_def sendEvent_def awaited_def and_then_def
      partial_updates_def split: option.split)

lemma on_chunk_text_calls:
  "calls (on_chunk_text msg t now w) =
     (if now - last_update_time w > 1000
      then calls w @ [Partial_update_message (msg_id msg) [(''text'', message_text w @ t)]]
      else calls w)"
  "last_update_time (on_chunk_text msg t now w) =
     (if now - last_update_time w > 1000 then now else last_update_time w)"
  by (simp_all add: on_chunk_text_def Let_def)

lemma on_chunk_text_updates:
  "partial_updates (on_chunk_text msg t now w) =
     (if now - last_update_time w > 1000 then partial_updates w + 1 else partial_updates w)"
  by (simp add: partial_updates_def on_chunk_text_calls)

lemma consume_in_window:
  assumes "\<forall>ev\<in>set evs. \<forall>t n. ev = Fragment t n \<and> t \<noteq> [] \<longrightarrow> lo \<le> n \<and> n \<le> lo + 1000"
  shows "(lo \<le> last_update_time w \<longrightarrow>
            partial_updates (snd (consume env msg evs w)) = partial_updates w) \<and>
         partial_updates (snd (consume env msg evs w)) \<le> partial_updates w + 1"
  using assms
proof (induction env msg evs w rule: consume.induct)
  case (2 env msg ev rest w)
  then show ?case by (simp add: deliver_frame)
next
  case (5 env msg chunkText now rest w)
  show ?case
  proof (cases "is_done w \<or> chunkText = []")
    case True
    then show ?thesis using 5 by auto
  next
    case False
    then have n: "lo \<le> now" "now \<le> lo + 1000" using 5(2) by auto
    let ?w1 = "on_chunk_text msg chunkText now w"
    have ih: "(lo \<le> last_update_time ?w1 \<longrightarrow>
            partial_updates (snd (consume env msg rest ?w1)) = partial_updates ?w1) \<and>
         partial_updates (snd (consume env msg rest ?w1)) \<le> partial_updates ?w1 + 1"
    proof -
      have nd: "\<not> is_done w" using False by simp
      have rest: "\<forall>ev\<in>set rest. \<forall>t n. ev = Fragment t n \<and> t \<noteq> [] \<longrightarrow> lo \<le> n \<and> n \<le> lo + 1000"
        using 5(2) by auto
      show ?thesis using 5(1)[OF nd rest] False by simp
    qed
    show ?thesis
    proof (cases "now - last_update_time w > 1000")
      case True
      then have "last_update_time ?w1 = now" "partial_updates ?w1 = partial_updates w + 1"
        by (simp_all add: on_chunk_text_calls on_chunk_text_updates)
      then show ?thesis using ih n True False by auto
    next
      case f: False
      then have "last_update_time ?w1 = last_update_time w" "partial_updates ?w1 = partial_updates w"
        by (simp_all add: on_chunk_text_calls on_chunk_text_updates)
      then show ?thesis using ih n f False by auto
    qed
  qed
qed simp_all

lemma run_try_final:
  assumes "fst (generate env msg u i w) = Inr ()"
  shows "calls (snd (run_try env msg u i w)) =
           calls (snd (generate env msg u i w)) @
             [Partial_update_message (msg_id msg)
                [(''text'', message_text (snd (generate env msg u i w)))],
              Send_event Ai_indicator_clear (msg_cid msg) (msg_id msg)]"
  using assms
  by (cases "generate env msg u i w")
     (auto simp: run_try_def and_then_def finish_def sendEvent_def awaited_def
       split: sum.splits option.splits)

subsection \<open>The shape of a run\<close>

lemma and_then_value [simp]: "and_then (\<lambda>w. (Inr x, w)) k = k x"
  by (rule ext) (simp add: and_then_def)

lemma generate_unfold:
  "generate env msg u i =
     and_then (awaited env (state_event AI_STATE_GENERATING msg))
       (\<lambda>_. and_then (awaited env (Send_message_stream (fullPrompt u i)))
          (\<lambda>_. and_then (consume env msg (reply_stream (first_reply env)))
             (\<lambda>_. and_then (\<lambda>w. (reply_function_calls (first_reply env), w))
                (tool_round env msg))))"
  by (simp add: generate_def sendEvent_state sendMessageStream_def and_then_assoc)

lemma adds_finish_gen:
  "stream_calls msg \<subseteq> S \<Longrightarrow> adds S w (snd (finish env msg w))"
  by (auto simp: finish_def sendEvent_clear adds_def stream_calls_def text_update_def)

lemma adds_handleError_gen:
  assumes "quiet_calls msg \<subseteq> S"
  shows "adds S w (snd (handleError env msg error w))"
proof (cases "is_done w")
  case True
  then show ?thesis by (simp add: handleError_def)
next
  case False
  have "adds S w (snd (and_then (awaited env (state_event AI_STATE_ERROR msg))
             (\<lambda>_. and_then (awaited env (error_update msg error))
                (\<lambda>_ w'. (Inr (), dispose w'))) w))"
    using assms
    by (intro adds_and_then adds_awaited)
       (auto simp: quiet_calls_def stream_calls_def intro!: adds_dispose)
  then show ?thesis using False by (simp add: handleError_def sendEvent_state error_update_def)
qed

lemma adds_generate_run:
  assumes "quiet_calls msg \<subseteq> S"
  shows "adds S (snd (generate env msg u i w)) (snd (run env msg u i w))"
proof -
  have st: "stream_calls msg \<subseteq> S" and od: "On_dispose \<in> S"
    using assms by (auto simp: quiet_calls_def stream_calls_def)
  obtain r w1 where g: "generate env msg u i w = (r, w1)" by (cases "generate env msg u i w")
  show ?thesis
  proof (cases r)
    case (Inl e)
    obtain r2 w2 where h: "handleError env msg e w1 = (r2, w2)"
      by (cases "handleError env msg e w1")
    have "adds S w1 w2" using adds_handleError_gen[OF assms, of w1 env e] h by simp
    moreover have "adds S w2 (dispose w2)" using od by (rule adds_dispose)
    ultimately have "adds S w1 (dispose w2)" by (rule adds_trans)
    then show ?thesis using g Inl h by (simp add: run_def run_try_def and_then_def)
  next
    case (Inr x)
    obtain r1 w1' where f: "finish env msg w1 = (r1, w1')" by (cases "finish env msg w1")
    have a: "adds S w1 w1'" using adds_finish_gen[OF st, of w1 env] f by simp
    show ?thesis
    proof (cases r1)
      case (Inr y)
      have "adds S w1' (dispose w1')" using od by (rule adds_dispose)
      with a have "adds S w1 (dispose w1')" by (rule adds_trans)
      then show ?thesis using g \<open>r = Inr x\<close> f Inr by (simp add: run_def run_try_def and_then_def)
    next
      case (Inl e)
      obtain r2 w2 where h: "handleError env msg e w1' = (r2, w2)"
        by (cases "handleError env msg e w1'")
      have "adds S w1' w2" using adds_handleError_gen[OF assms, of w1' env e] h by simp
      moreover have "adds S w2 (dispose w2)" using od by (rule adds_dispose)
      ultimately have "adds S w1 (dispose w2)" using a by (blast intro: adds_trans)
      then show ?thesis using g Inr f Inl h by (simp add: run_def run_try_def and_then_def)
    qed
  qed
qed

lemma run_calls_no_tools:
  assumes "reply_function_calls (first_reply env) = Inr None \<or>
           reply_function_calls (first_reply env) = Inr (Some [])"
  shows "\<exists>rest. set rest \<subseteq> quiet_calls msg \<and>
           (run_calls env msg u i w = state_event AI_STATE_GENERATING msg # rest \<or>
            run_calls env msg u i w =
              state_event AI_STATE_GENERATING msg # Send_message_stream (fullPrompt u i) # rest)"
proof -
  let ?w1 = "post (state_event AI_STATE_GENERATING msg) w"
  let ?w2 = "post (Send_message_stream (fullPrompt u i)) ?w1"
  have tr: "and_then (\<lambda>w. (reply_function_calls (first_reply env), w)) (tool_round env msg)
              = returns ()"
    using assms by (auto simp: tool_round_def)
  have g: "generate env msg u i w =
      (case fault env (length (calls w)) of
         Some e \<Rightarrow> (Inl e, ?w1)
       | None \<Rightarrow>
          (case fault env (Suc (length (calls w))) of
             Some e \<Rightarrow> (Inl e, ?w2)
           | None \<Rightarrow> and_then (consume env msg (reply_stream (first_reply env)))
                       (\<lambda>_. returns ()) ?w2))"
    unfolding generate_unfold tr
    by (simp add: and_then_def awaited_def split: option.split)
  have "adds (stream_calls msg) ?w2
          (snd (and_then (consume env msg (reply_stream (first_reply env))) (\<lambda>_. returns ()) ?w2))"
    by (intro adds_and_then adds_consume) (simp_all add: returns_def)
  then have c: "calls (snd (generate env msg u i w)) = calls ?w1 \<or>
         adds (quiet_calls msg) ?w2 (snd (generate env msg u i w))"
    unfolding g
    by (auto split: option.split simp: adds_def quiet_calls_def)
  have "adds (quiet_calls msg) (snd (generate env msg u i w)) (snd (run env msg u i w))"
    by (rule adds_generate_run) simp
  then obtain ys where ys: "set ys \<subseteq> quiet_calls msg"
    "calls (snd (run env msg u i w)) = calls (snd (generate env msg u i w)) @ ys"
    by (auto simp: adds_def)
  from c show ?thesis
  proof
    assume "calls (snd (generate env msg u i w)) = calls ?w1"
    then have "run_calls env msg u i w = state_event AI_STATE_GENERATING msg # ys"
      using ys(2) by (simp add: run_calls_def)
    then show ?thesis using ys(1) by blast
  next
    assume "adds (quiet_calls msg) ?w2 (snd (generate env msg u i w))"
    then obtain xs where xs: "set xs \<subseteq> quiet_calls msg"
      "calls (snd (generate env msg u i w)) = calls ?w2 @ xs"
      by (auto simp: adds_def)
    have "run_calls env msg u i w =
        state_event AI_STATE_GENERATING msg # Send_message_stream (fullPrompt u i) # (xs @ ys)"
      using ys(2) xs(2) by (simp add: run_calls_def)
    moreover have "set (xs @ ys) \<subseteq> quiet_calls msg" using xs(1) ys(1) by simp
    ultimately show ?thesis by blast
  qed
qed

lemma awaited_ok: "fault env (length (calls w)) = None \<Longrightarrow> awaited env c w = (Inr (), post c w)"
  by (simp add: awaited_def)

lemma consume_returns:
  "\<forall>ev\<in>set evs. \<not> throws ev \<Longrightarrow> fst (consume env msg evs w) = Inr ()"
  by (induction env msg evs w rule: consume.induct) simp_all

lemma consume_shape:
  assumes "\<forall>ev\<in>set evs. \<not> throws ev"
  obtains xs w' where "consume env msg evs w = (Inr (), w')" and "calls w' = calls w @ xs"
    and "set xs \<subseteq> stream_calls msg"
proof -
  obtain r w' where c: "consume env msg evs w = (r, w')" by (cases "consume env msg evs w")
  have "r = Inr ()" using consume_returns[OF assms, of env msg w] c by simp
  moreover obtain xs where "calls w' = calls w @ xs" "set xs \<subseteq> stream_calls msg"
    using adds_consume[of msg "stream_calls msg" w env evs] c by (auto simp: adds_def)
  ultimately show ?thesis using c that by blast
qed

lemma call_tools_other:
  "\<forall>fc\<in>set fcs. fc_name fc \<noteq> ''web_search'' \<Longrightarrow> call_tools env fcs acc w = (acc, w)"
  by (induction fcs) simp_all

lemma tool_round_other:
  assumes "fcs \<noteq> []" and "\<forall>fc\<in>set fcs. fc_name fc \<noteq> ''web_search''"
  shows "tool_round env msg (Some fcs) = awaited env (state_event AI_STATE_EXTERNAL_SOURCES msg)"
  using assms
  by (intro ext)
     (simp add: tool_round_def sendEvent_state and_then_def call_tools_other awaited_def
        split: option.split)

lemma run_other_tool:
  "run other_tool_env msg1 ''What is the weather?'' ''Be concise'' constructed =
     (Inr (),
      \<lparr>message_text = ''Sunny today'', chunk_counter = 2, is_done = True,
       last_update_time = 5000, listening = False,
       calls = [Send_event (Ai_indicator_update AI_STATE_GENERATING) ''messaging:c1'' ''m1'',
                Send_message_stream ''Be concise\<newline>\<newline>User message: What is the weather?'',
                Partial_update_message ''m1'' [(''text'', ''Sun'')],
                Send_event (Ai_indicator_update AI_STATE_EXTERNAL_SOURCES) ''messaging:c1'' ''m1'',
                Partial_update_message ''m1'' [(''text'', ''Sunny today'')],
                Send_event Ai_indicator_clear ''messaging:c1'' ''m1'',
                On_dispose]\<rparr>)"
  by (simp add: run_unfold other_tool_env_def sunny_env_def quiet_env_def msg1_def constructed_def)

subsection \<open>The tool calls\<close>














lemma functionResultsText_spec: "functionResultsText results = spec_follow_up_text results"
  by (induction results rule: spec_follow_up_text.induct)
     (simp_all add: functionResultsText_def spec_pair_text_def)

lemma tool_round_follow_up_prompt:
  assumes ne: "fcs \<noteq> []" and nf: "fault env (length (calls w)) = None"
    and ct: "call_tools env fcs [] (post (state_event AI_STATE_EXTERNAL_SOURCES msg) w) = (results, w')"
    and rs: "results \<noteq> []"
  shows "calls (snd (tool_round env msg (Some fcs) w)) ! length (calls w') =
           Send_message_stream (functionResultsText results)"
proof -
  let ?w6 = "post (Send_message_stream (functionResultsText results)) w'"
  have "adds UNIV ?w6 (snd (consume env msg (reply_stream (follow_up_reply env)) ?w6))"
    by (rule adds_consume) simp
  then obtain xs where
    xs: "calls (snd (consume env msg (reply_stream (follow_up_reply env)) ?w6)) = calls ?w6 @ xs"
    by (auto simp: adds_def)
  have t: "tool_round env msg (Some fcs) w =
        and_then (sendMessageStream env (functionResultsText results) (follow_up_reply env))
          (\<lambda>followUpResult. consume env msg (reply_stream followUpResult)) w'"
    using ne rs by (simp add: tool_round_def sendEvent_state and_then_def awaited_ok[OF nf] ct)
  have "calls (snd (tool_round env msg (Some fcs) w)) = calls ?w6 \<or>
        calls (snd (tool_round env msg (Some fcs) w)) = calls ?w6 @ xs"
    unfolding t using xs
    by (simp add: and_then_def sendMessageStream_def returns_def awaited_def split: option.split)
  then show ?thesis by auto
qed

lemma run_search:
  \<open>run search_env msg1 ''what is foo'' ''Be concise'' constructed =
     (Inr (),
      \<lparr>message_text = ''Searching. It is bar.'', chunk_counter = 2, is_done = True,
       last_update_time = 5000, listening = False,
       calls = [Send_event (Ai_indicator_update AI_STATE_GENERATING) ''messaging:c1'' ''m1'',
                Send_message_stream ''Be concise\<newline>\<newline>User message: what is foo'',
                Partial_update_message ''m1'' [(''text'', ''Searching.'')],
                Send_event (Ai_indicator_update AI_STATE_EXTERNAL_SOURCES) ''messaging:c1'' ''m1'',
                Fetch_search ''foo'',
                Send_message_stream ''Function: web_search\<newline>Result: {"answer":"bar"}'',
                Partial_update_message ''m1'' [(''text'', ''Searching. It is bar.'')],
                Send_event Ai_indicator_clear ''messaging:c1'' ''m1'',
                On_dispose]\<rparr>)\<close>
  by (simp add: run_unfold search_env_def msg1_def constructed_def)

subsection \<open>A handler that is done\<close>

text \<open>The loops change no field of a handler that is done.\<close>

lemma deliver_done: "is_done w \<Longrightarrow> deliver env msg ev w = w"
  by (simp add: deliver_def handleStopGenerating_def)

lemma consume_done:
  "is_done w \<Longrightarrow>
     is_done (snd (consume env msg evs w)) \<and>
     message_text (snd (consume env msg evs w)) = message_text w \<and>
     chunk_counter (snd (consume env msg evs w)) = chunk_counter w \<and>
     last_update_time (snd (consume env msg evs w)) = last_update_time w"
  by (induction env msg evs w rule: consume.induct) (simp_all add: deliver_done)

section \<open>The claims\<close>

text \<open>
  C1 does not hold of the code. A stop event for the relay's message arrives after the first
  chunk: the listener sends the clear event and disposes, and the loop breaks at the next
  chunk. \<^verbatim>\<open>run\<close> then goes on: it announces external sources, searches, sends the follow-up
  prompt, writes the final update and sends the clear event again, all after the disposal
  callback.
\<close>

theorem stop_mid_stream_run_continues:
  \<open>run_calls stop_mid_stream_env msg1 ''hi'' ''Be concise'' constructed =
     [Send_event (Ai_indicator_update AI_STATE_GENERATING) ''messaging:c1'' ''m1'',
      Send_message_stream ''Be concise\<newline>\<newline>User message: hi'',
      Partial_update_message ''m1'' [(''text'', ''Hel'')],
      Send_event Ai_indicator_clear ''messaging:c1'' ''m1'',
      On_dispose,
      Send_event (Ai_indicator_update AI_STATE_EXTERNAL_SOURCES) ''messaging:c1'' ''m1'',
      Fetch_search ''foo'',
      Send_message_stream ''Function: web_search\<newline>Result: {"answer":"bar"}'',
      Partial_update_message ''m1'' [(''text'', ''Hel'')],
      Send_event Ai_indicator_clear ''messaging:c1'' ''m1'']\<close>
  by (simp add: run_calls_def run_unfold stop_mid_stream_env_def msg1_def constructed_def)



text \<open>
  C3. In one stream loop, chunks whose clock readings lie within 1000 ms of each other cause
  at most one partial update, whatever else the stream holds. A chunk causes an update only
  when its clock reading is more than 1000 ms after \<^verbatim>\<open>last_update_time\<close>, which is then set
  to that reading. And when the streaming and the tool round end without an exception, the
  \<^verbatim>\<open>try\<close> block of \<^verbatim>\<open>run\<close> adds to their calls exactly one update with the whole
  accumulated text, and then the clear event, whether or not any throttled update was made.
\<close>

theorem throttled_updates_and_final_update:
  "((\<forall>ev\<in>set evs. \<forall>t n. ev = Fragment t n \<and> t \<noteq> [] \<longrightarrow> lo \<le> n \<and> n \<le> lo + 1000) \<longrightarrow>
      partial_updates (snd (consume env msg evs w)) \<le> partial_updates w + 1) \<and>
   calls (on_chunk_text msg chunkText now w) =
     (if now - last_update_time w > 1000
      then calls w @
             [Partial_update_message (msg_id msg) [(''text'', message_text w @ chunkText)]]
      else calls w) \<and>
   last_update_time (on_chunk_text msg chunkText now w) =
     (if now - last_update_time w > 1000 then now else last_update_time w) \<and>
   (fst (generate env msg userMessage instructions w0) = Inr () \<longrightarrow>
      calls (snd (run_try env msg userMessage instructions w0)) =
        calls (snd (generate env msg userMessage instructions w0)) @
          [Partial_update_message (msg_id msg)
             [(''text'', message_text (snd (generate env msg userMessage instructions w0)))],
           Send_event Ai_indicator_clear (msg_cid msg) (msg_id msg)])"
  using consume_in_window[of evs lo w env msg] on_chunk_text_calls[of msg chunkText now w]
    run_try_final[of env msg userMessage instructions w0]
  by blast

text \<open>
  The theorem at a stream of two chunks 400 ms apart, and at an empty stream, where the
  final update is the only one.
\<close>

theorem throttled_updates_and_final_update_witness:
  "partial_updates
     (snd (consume sunny_env msg1 [Fragment ''Sun'' 5000, Fragment ''ny today'' 5400]
             constructed)) \<le> partial_updates constructed + 1 \<and>
   calls (snd (run_try sunny_env msg1 ''What is the weather?'' ''Be concise'' constructed)) =
     [Send_event (Ai_indicator_update AI_STATE_GENERATING) ''messaging:c1'' ''m1'',
      Send_message_stream ''Be concise\<newline>\<newline>User message: What is the weather?'',
      Partial_update_message ''m1'' [(''text'', ''Sun'')],
      Partial_update_message ''m1'' [(''text'', ''Sunny today'')],
      Send_event Ai_indicator_clear ''messaging:c1'' ''m1''] \<and>
   calls (snd (run_try quiet_env msg1 ''hi'' ''Be concise'' constructed)) =
     [Send_event (Ai_indicator_update AI_STATE_GENERATING) ''messaging:c1'' ''m1'',
      Send_message_stream ''Be concise\<newline>\<newline>User message: hi'',
      Partial_update_message ''m1'' [(''text'', [])],
      Send_event Ai_indicator_clear ''messaging:c1'' ''m1'']"
proof -
  have s: "fst (generate sunny_env msg1 ''What is the weather?'' ''Be concise'' constructed) = Inr ()"
    by (simp add: generate_sunny)
  have q: "fst (generate quiet_env msg1 ''hi'' ''Be concise'' constructed) = Inr ()"
    by (simp add: generate_quiet)
  have h: "\<forall>ev\<in>set [Fragment ''Sun'' 5000, Fragment ''ny today'' 5400].
             \<forall>t n. ev = Fragment t n \<and> t \<noteq> [] \<longrightarrow> (5000::int) \<le> n \<and> n \<le> 5000 + 1000"
    by simp
  note sunny = throttled_updates_and_final_update
            [where evs = "[Fragment ''Sun'' 5000, Fragment ''ny today'' 5400]" and lo = 5000
               and env = sunny_env and msg = msg1 and w = constructed
               and userMessage = "''What is the weather?''" and instructions = "''Be concise''"
               and ?w0.0 = constructed]
  note quiet = throttled_updates_and_final_update
            [where env = quiet_env and msg = msg1
               and userMessage = "''hi''" and instructions = "''Be concise''"
               and ?w0.0 = constructed]
  have a: "partial_updates
     (snd (consume sunny_env msg1 [Fragment ''Sun'' 5000, Fragment ''ny today'' 5400]
             constructed)) \<le> partial_updates constructed + 1"
    using sunny [THEN conjunct1, THEN mp, OF h] .
  have b: "calls (snd (run_try sunny_env msg1 ''What is the weather?'' ''Be concise'' constructed)) =
        calls (snd (generate sunny_env msg1 ''What is the weather?'' ''Be concise'' constructed)) @
          [Partial_update_message (msg_id msg1)
             [(''text'', message_text (snd (generate sunny_env msg1 ''What is the weather?'' ''Be concise'' constructed)))],
           Send_event Ai_indicator_clear (msg_cid msg1) (msg_id msg1)]"
    using sunny [THEN conjunct2, THEN conjunct2, THEN conjunct2, THEN mp, OF s] .
  have c: "calls (snd (run_try quiet_env msg1 ''hi'' ''Be concise'' constructed)) =
        calls (snd (generate quiet_env msg1 ''hi'' ''Be concise'' constructed)) @
          [Partial_update_message (msg_id msg1)
             [(''text'', message_text (snd (generate quiet_env msg1 ''hi'' ''Be concise'' constructed)))],
           Send_event Ai_indicator_clear (msg_cid msg1) (msg_id msg1)]"
    using quiet [THEN conjunct2, THEN conjunct2, THEN conjunct2, THEN mp, OF q] .
  show ?thesis
    using a by (simp add: b c generate_sunny generate_quiet) (simp add: msg1_def)
qed

text \<open>
  C4. Every error thrown in the \<^verbatim>\<open>try\<close> block of \<^verbatim>\<open>run\<close> goes to
  \<^verbatim>\<open>handleError\<close>, and \<^verbatim>\<open>dispose\<close> follows. On a handler that is done
  \<^verbatim>\<open>handleError\<close> changes nothing. Otherwise it sends the error state, then sets the text
  of the message to the message of the error (a fixed text when it has none) and the field
  \<^verbatim>\<open>message\<close> to the error as a string, then disposes; each step waits for the one before
  to return. The streamed text is not part of the update.
\<close>

theorem handleError_cases:
  "(fst (run_try env msg userMessage instructions w0) = Inl error \<longrightarrow>
      run env msg userMessage instructions w0 =
        (fst (handleError env msg error (snd (run_try env msg userMessage instructions w0))),
         dispose (snd (handleError env msg error
                    (snd (run_try env msg userMessage instructions w0)))))) \<and>
   (is_done w \<longrightarrow> handleError env msg error w = (Inr (), w)) \<and>
   (\<not> is_done w \<longrightarrow>
      handleError env msg error w =
        (case fault env (length (calls w)) of
           Some e \<Rightarrow>
             (Inl e,
              w\<lparr>calls := calls w @
                  [Send_event (Ai_indicator_update AI_STATE_ERROR) (msg_cid msg) (msg_id msg)]\<rparr>)
         | None \<Rightarrow>
             (case fault env (Suc (length (calls w))) of
                Some e \<Rightarrow>
                  (Inl e,
                   w\<lparr>calls := calls w @
                       [Send_event (Ai_indicator_update AI_STATE_ERROR) (msg_cid msg) (msg_id msg),
                        Partial_update_message (msg_id msg)
                          [(''text'', (case err_message error of
                                         Some m \<Rightarrow> m
                                       | None \<Rightarrow> ''Error generating the message'')),
                           (''message'', err_string error)]]\<rparr>)
              | None \<Rightarrow>
                  (Inr (),
                   w\<lparr>is_done := True, listening := False,
                     calls := calls w @
                       [Send_event (Ai_indicator_update AI_STATE_ERROR) (msg_cid msg) (msg_id msg),
                        Partial_update_message (msg_id msg)
                          [(''text'', (case err_message error of
                                         Some m \<Rightarrow> m
                                       | None \<Rightarrow> ''Error generating the message'')),
                           (''message'', err_string error)],
                        On_dispose]\<rparr>))))"
proof -
  have "run env msg userMessage instructions w0 =
        (fst (handleError env msg error (snd (run_try env msg userMessage instructions w0))),
         dispose (snd (handleError env msg error
                    (snd (run_try env msg userMessage instructions w0)))))"
    if "fst (run_try env msg userMessage instructions w0) = Inl error"
    using that by (cases "run_try env msg userMessage instructions w0")
      (simp add: run_def split: prod.split)
  then show ?thesis
    by (simp add: handleError_def sendEvent_def awaited_def and_then_def dispose_def
        post_def split: option.split)
qed

text \<open>
  The theorem at a handler that is done, at one that has streamed \<^verbatim>\<open>Sun\<close>, and at a
  run whose stream breaks after that chunk.
\<close>

theorem handleError_cases_witness:
  "handleError quiet_env msg1 quota_error stopped = (Inr (), stopped) \<and>
   handleError quiet_env msg1 quota_error (constructed\<lparr>message_text := ''Sun''\<rparr>) =
     (Inr (),
      constructed\<lparr>message_text := ''Sun'', is_done := True, listening := False,
        calls := [Send_event (Ai_indicator_update AI_STATE_ERROR) ''messaging:c1'' ''m1'',
                  Partial_update_message ''m1''
                    [(''text'', ''quota exceeded''), (''message'', ''Error: quota exceeded'')],
                  On_dispose]\<rparr>) \<and>
   fst (run_try broken_stream_env msg1 ''hi'' ''Be concise'' constructed) = Inl quota_error \<and>
   run_calls broken_stream_env msg1 ''hi'' ''Be concise'' constructed =
     [Send_event (Ai_indicator_update AI_STATE_GENERATING) ''messaging:c1'' ''m1'',
      Send_message_stream ''Be concise\<newline>\<newline>User message: hi'',
      Partial_update_message ''m1'' [(''text'', ''Sun'')],
      Send_event (Ai_indicator_update AI_STATE_ERROR) ''messaging:c1'' ''m1'',
      Partial_update_message ''m1''
        [(''text'', ''quota exceeded''), (''message'', ''Error: quota exceeded'')],
      On_dispose]"
proof -
  have t: "run_try broken_stream_env msg1 ''hi'' ''Be concise'' constructed =
     (Inl quota_error,
      constructed\<lparr>message_text := ''Sun'', chunk_counter := 1, last_update_time := 5000,
        calls := [Send_event (Ai_indicator_update AI_STATE_GENERATING) ''messaging:c1'' ''m1'',
                  Send_message_stream ''Be concise\<newline>\<newline>User message: hi'',
                  Partial_update_message ''m1'' [(''text'', ''Sun'')]]\<rparr>)"
    by (simp add: run_try_def generate_def and_then_def sendEvent_def
        sendMessageStream_def awaited_def returns_def broken_stream_env_def quiet_env_def
        msg1_def constructed_def post_def fullPrompt_def on_chunk_text_def Let_def)
  show ?thesis
    using handleError_cases [of broken_stream_env msg1 "''hi''" "''Be concise''" constructed
            quota_error stopped]
      handleError_cases [of quiet_env msg1 "''hi''" "''Be concise''" constructed
            quota_error "constructed\<lparr>message_text := ''Sun''\<rparr>"]
    by (simp add: t run_calls_def)
      (simp add: msg1_def quiet_env_def broken_stream_env_def constructed_def stopped_def
        dispose_def post_def quota_error_def handleError_def sendEvent_def awaited_def
        and_then_def)
qed

text \<open>
  C5. A stop event for another message, or one that reaches a handler that is done, changes
  nothing and makes no call. Any other stop event sends the clear event and, when that call
  returns, disposes; when the call rejects, the handler stops there.
\<close>

theorem handleStopGenerating_cases:
  "(is_done w \<or> event_message_id \<noteq> msg_id msg \<longrightarrow>
      handleStopGenerating env msg event_message_id w = (Inr (), w)) \<and>
   (\<not> is_done w \<and> event_message_id = msg_id msg \<longrightarrow>
      handleStopGenerating env msg event_message_id w =
        (case fault env (length (calls w)) of
           None \<Rightarrow>
             (Inr (),
              w\<lparr>is_done := True, listening := False,
                calls := calls w @
                  [Send_event Ai_indicator_clear (msg_cid msg) (msg_id msg), On_dispose]\<rparr>)
         | Some e \<Rightarrow>
             (Inl e,
              w\<lparr>calls := calls w @
                  [Send_event Ai_indicator_clear (msg_cid msg) (msg_id msg)]\<rparr>)))"
  by (simp add: handleStopGenerating_def sendEvent_def awaited_def and_then_def dispose_def
      post_def split: option.split)

text \<open>
  The theorem at a stop event for another message, at one for a handler that is done, at
  one for the relay's own message, and at one whose clear event the channel rejects.
\<close>

theorem handleStopGenerating_cases_witness:
  "handleStopGenerating quiet_env msg1 ''m2'' constructed = (Inr (), constructed) \<and>
   handleStopGenerating quiet_env msg1 ''m1'' stopped = (Inr (), stopped) \<and>
   handleStopGenerating quiet_env msg1 ''m1'' constructed =
     (Inr (),
      constructed\<lparr>is_done := True, listening := False,
        calls := [Send_event Ai_indicator_clear ''messaging:c1'' ''m1'', On_dispose]\<rparr>) \<and>
   handleStopGenerating failing_env msg1 ''m1'' constructed =
     (Inl \<lparr>err_message = Some ''offline'', err_string = ''Error: offline''\<rparr>,
      constructed\<lparr>calls := [Send_event Ai_indicator_clear ''messaging:c1'' ''m1'']\<rparr>)"
  using handleStopGenerating_cases [of constructed "''m2''" msg1 quiet_env]
    handleStopGenerating_cases [of stopped "''m1''" msg1 quiet_env]
    handleStopGenerating_cases [of constructed "''m1''" msg1 quiet_env]
    handleStopGenerating_cases [of constructed "''m1''" msg1 failing_env]
  by (simp add: msg1_def quiet_env_def failing_env_def constructed_def stopped_def dispose_def
      post_def)




text \<open>
  C7. When the response of the model has no tool calls (\<^verbatim>\<open>functionCalls()\<close> gives
  \<^verbatim>\<open>undefined\<close> or an empty list), \<^verbatim>\<open>run\<close> never announces external sources, and it
  sends the model session at most one prompt, the composed one: no follow-up prompt.
\<close>

theorem no_tool_calls_no_external_sources:
  "reply_function_calls (first_reply env) = Inr None \<or>
   reply_function_calls (first_reply env) = Inr (Some []) \<longrightarrow>
     Send_event (Ai_indicator_update AI_STATE_EXTERNAL_SOURCES) (msg_cid msg) (msg_id msg)
       \<notin> set (run_calls env msg userMessage instructions w) \<and>
     length (filter is_prompt (run_calls env msg userMessage instructions w)) \<le> 1 \<and>
     (\<forall>p. Send_message_stream p \<in> set (run_calls env msg userMessage instructions w) \<longrightarrow>
          p = fullPrompt userMessage instructions)"
proof
  assume a: "reply_function_calls (first_reply env) = Inr None \<or>
   reply_function_calls (first_reply env) = Inr (Some [])"
  have q: "c \<in> quiet_calls msg \<Longrightarrow> \<not> is_prompt c \<and>
      c \<noteq> Send_event (Ai_indicator_update AI_STATE_EXTERNAL_SOURCES) (msg_cid msg) (msg_id msg)" for c
    by (auto simp: quiet_calls_def stream_calls_def clear_event_def text_update_def
        state_event_def error_update_def)
  obtain rest where r: "set rest \<subseteq> quiet_calls msg"
    "run_calls env msg userMessage instructions w = state_event AI_STATE_GENERATING msg # rest \<or>
     run_calls env msg userMessage instructions w =
       state_event AI_STATE_GENERATING msg #
         Send_message_stream (fullPrompt userMessage instructions) # rest"
    using run_calls_no_tools[OF a, of msg userMessage instructions w] by blast
  have f: "filter is_prompt rest = []" using r(1) q by (auto simp: filter_empty_conv)
  have n: "Send_event (Ai_indicator_update AI_STATE_EXTERNAL_SOURCES) (msg_cid msg) (msg_id msg)
       \<notin> set rest" using r(1) q by blast
  have p: "Send_message_stream p \<notin> set rest" for p using r(1) q[of "Send_message_stream p"] by auto
  show "Send_event (Ai_indicator_update AI_STATE_EXTERNAL_SOURCES) (msg_cid msg) (msg_id msg)
       \<notin> set (run_calls env msg userMessage instructions w) \<and>
     length (filter is_prompt (run_calls env msg userMessage instructions w)) \<le> 1 \<and>
     (\<forall>p. Send_message_stream p \<in> set (run_calls env msg userMessage instructions w) \<longrightarrow>
          p = fullPrompt userMessage instructions)"
    using r(2) f n p by (auto simp: state_event_def)
qed

text \<open>The theorem at the run that streams \<^verbatim>\<open>Sunny today\<close> in two chunks.\<close>

theorem no_tool_calls_no_external_sources_witness:
  "Send_event (Ai_indicator_update AI_STATE_EXTERNAL_SOURCES) (msg_cid msg1) (msg_id msg1)
       \<notin> set (run_calls sunny_env msg1 ''What is the weather?'' ''Be concise'' constructed) \<and>
   length (filter is_prompt
             (run_calls sunny_env msg1 ''What is the weather?'' ''Be concise'' constructed)) \<le> 1 \<and>
   run_calls sunny_env msg1 ''What is the weather?'' ''Be concise'' constructed =
     [Send_event (Ai_indicator_update AI_STATE_GENERATING) ''messaging:c1'' ''m1'',
      Send_message_stream ''Be concise\<newline>\<newline>User message: What is the weather?'',
      Partial_update_message ''m1'' [(''text'', ''Sun'')],
      Partial_update_message ''m1'' [(''text'', ''Sunny today'')],
      Send_event Ai_indicator_clear ''messaging:c1'' ''m1'',
      On_dispose]"
proof -
  have h: "reply_function_calls (first_reply sunny_env) = Inr None \<or>
           reply_function_calls (first_reply sunny_env) = Inr (Some [])"
    by (simp add: sunny_env_def)
  have e: "run_calls sunny_env msg1 ''What is the weather?'' ''Be concise'' constructed =
     [Send_event (Ai_indicator_update AI_STATE_GENERATING) ''messaging:c1'' ''m1'',
      Send_message_stream ''Be concise\<newline>\<newline>User message: What is the weather?'',
      Partial_update_message ''m1'' [(''text'', ''Sun'')],
      Partial_update_message ''m1'' [(''text'', ''Sunny today'')],
      Send_event Ai_indicator_clear ''messaging:c1'' ''m1'',
      On_dispose]"
    by (simp add: run_calls_def run_def run_try_def and_then_def generate_sunny)
       (simp add: finish_def sendEvent_def awaited_def sunny_env_def quiet_env_def post_def
          dispose_def msg1_def constructed_def)
  show ?thesis
    using no_tool_calls_no_external_sources
            [of sunny_env msg1 "''What is the weather?''" "''Be concise''" constructed,
             THEN mp, OF h] e
    by simp
qed

text \<open>
  C8. The text that lines 94 to 96 build from the results is the one the specification
  describes. And when the tool round has announced external sources and the tool calls have
  given results, the next call is the follow-up prompt with exactly this text.
\<close>

theorem follow_up_prompt_text:
  "functionResultsText results = spec_follow_up_text results \<and>
   (fcs \<noteq> [] \<and> fault env (length (calls w)) = None \<and>
    call_tools env fcs []
      (post (Send_event (Ai_indicator_update AI_STATE_EXTERNAL_SOURCES) (msg_cid msg) (msg_id msg))
         w) = (results, w') \<and>
    results \<noteq> [] \<longrightarrow>
      calls (snd (tool_round env msg (Some fcs) w)) ! length (calls w') =
        Send_message_stream (spec_follow_up_text results))"
  using tool_round_follow_up_prompt[of fcs env w msg results w']
  by (simp add: functionResultsText_spec state_event_def)

text \<open>
  The theorem at one \<^verbatim>\<open>web_search\<close> call for \<^verbatim>\<open>foo\<close> that the service answers: in
  the tool round and in the whole run the follow-up prompt is the text of the scenario.
\<close>

theorem follow_up_prompt_text_witness:
  \<open>functionResultsText [\<lparr>name = ''web_search'', response = ''{"answer":"bar"}''\<rparr>] =
     ''Function: web_search\<newline>Result: {"answer":"bar"}'' \<and>
   calls (snd (tool_round search_env msg1
                 (Some [\<lparr>fc_name = ''web_search'', fc_args = Some ''foo''\<rparr>]) constructed)) ! 2 =
     Send_message_stream ''Function: web_search\<newline>Result: {"answer":"bar"}'' \<and>
   run_calls search_env msg1 ''what is foo'' ''Be concise'' constructed ! 5 =
     Send_message_stream ''Function: web_search\<newline>Result: {"answer":"bar"}''\<close>
proof -
  let ?fcs = "[\<lparr>fc_name = ''web_search'', fc_args = Some ''foo''\<rparr>]"
  let ?rs = \<open>[\<lparr>name = ''web_search'', response = ''{"answer":"bar"}''\<rparr>]\<close>
  let ?w' = "post (Fetch_search ''foo'')
               (post (Send_event (Ai_indicator_update AI_STATE_EXTERNAL_SOURCES)
                        (msg_cid msg1) (msg_id msg1)) constructed)"
  have h: "?fcs \<noteq> [] \<and> fault search_env (length (calls constructed)) = None \<and>
    call_tools search_env ?fcs []
      (post (Send_event (Ai_indicator_update AI_STATE_EXTERNAL_SOURCES)
               (msg_cid msg1) (msg_id msg1)) constructed) = (?rs, ?w') \<and>
    ?rs \<noteq> []"
    by (simp add: search_env_def performWebSearch_def)
  note t = follow_up_prompt_text
      [where results = ?rs and fcs = ?fcs and env = search_env and w = constructed
         and msg = msg1 and w' = ?w']
  have a: "functionResultsText ?rs = spec_follow_up_text ?rs" using t by (rule conjunct1)
  have b: "calls (snd (tool_round search_env msg1 (Some ?fcs) constructed)) ! length (calls ?w') =
        Send_message_stream (spec_follow_up_text ?rs)"
    using t [THEN conjunct2, THEN mp, OF h] .
  have l: "length (calls ?w') = 2" by (simp add: constructed_def)
  have c: \<open>spec_follow_up_text ?rs = ''Function: web_search\<newline>Result: {"answer":"bar"}''\<close>
    by (simp add: spec_pair_text_def)
  have \<open>calls (snd (tool_round search_env msg1 (Some ?fcs) constructed)) ! 2 =
     Send_message_stream ''Function: web_search\<newline>Result: {"answer":"bar"}''\<close>
    using b unfolding l c .
  moreover have \<open>functionResultsText ?rs =
      ''Function: web_search\<newline>Result: {"answer":"bar"}''\<close>
    using a unfolding c .
  moreover have \<open>run_calls search_env msg1 ''what is foo'' ''Be concise'' constructed ! 5 =
     Send_message_stream ''Function: web_search\<newline>Result: {"answer":"bar"}''\<close>
    by (simp add: run_calls_def run_search) (simp add: constructed_def)
  ultimately show ?thesis by blast
qed

text \<open>
  C9, as the code has it. When the first status event is accepted, the second call of
  \<^verbatim>\<open>run\<close> sends the model session the instructions, then the fixed text of two line
  breaks and \<^verbatim>\<open>User message: \<close>, then the user message.
\<close>

theorem prompt_is_instructions_separator_message:
  "fault env (length (calls w)) = None \<longrightarrow>
     take 2 (run_calls env msg userMessage instructions w) =
       [Send_event (Ai_indicator_update AI_STATE_GENERATING) (msg_cid msg) (msg_id msg),
        Send_message_stream (instructions @ ''\<newline>\<newline>User message: '' @ userMessage)]"
proof
  assume f: "fault env (length (calls w)) = None"
  let ?w2 = "post (Send_message_stream (fullPrompt userMessage instructions))
               (post (state_event AI_STATE_GENERATING msg) w)"
  have "adds UNIV ?w2 (snd (run env msg userMessage instructions w))"
    using generate_first_calls[OF f] adds_generate_run_try adds_run_try_run
    by (blast intro: adds_trans)
  then obtain xs where
    "calls (snd (run env msg userMessage instructions w)) = calls ?w2 @ xs"
    by (auto simp: adds_def)
  then show "take 2 (run_calls env msg userMessage instructions w) =
       [Send_event (Ai_indicator_update AI_STATE_GENERATING) (msg_cid msg) (msg_id msg),
        Send_message_stream (instructions @ ''\<newline>\<newline>User message: '' @ userMessage)]"
    by (simp add: run_calls_def state_event_def fullPrompt_def)
qed

text \<open>The theorem at the prompt \<^verbatim>\<open>hi\<close> with the instructions \<^verbatim>\<open>Be concise\<close>.\<close>

theorem prompt_is_instructions_separator_message_witness:
  "fault quiet_env (length (calls constructed)) = None \<and>
   take 2 (run_calls quiet_env msg1 ''hi'' ''Be concise'' constructed) =
     [Send_event (Ai_indicator_update AI_STATE_GENERATING) ''messaging:c1'' ''m1'',
      Send_message_stream ''Be concise\<newline>\<newline>User message: hi'']"
  using prompt_is_instructions_separator_message
          [of quiet_env constructed msg1 "''hi''" "''Be concise''"]
  by (simp add: quiet_env_def msg1_def)

text \<open>
  C9 as the specification states it fails: in that run the prompt holds the separator, and
  the instructions followed directly by the user message are never sent.
\<close>

theorem prompt_plain_concatenation_counterexample:
  "run_calls quiet_env msg1 ''hi'' ''Be concise'' constructed ! 1 =
     Send_message_stream ''Be concise\<newline>\<newline>User message: hi'' \<and>
   Send_message_stream (''Be concise'' @ ''hi'') \<notin>
     set (run_calls quiet_env msg1 ''hi'' ''Be concise'' constructed)"
  by (simp add: run_calls_def run_quiet) (simp add: constructed_def)

text \<open>
  C10. The response has tool calls, none of them named \<^verbatim>\<open>web_search\<close>, no transport or
  model call fails and the stream does not throw. Then \<^verbatim>\<open>run\<close> returns, and its calls are:
  the generating state and the prompt, what the stream loop and the stop listener make, the
  announcement of external sources, directly followed by the final update with the whole
  text and the clear event, and the disposal callback unless a stop event has disposed
  already. No search is made and the composed prompt is the only prompt.
\<close>

theorem other_tools_only_announced:
  "reply_function_calls (first_reply env) = Inr (Some fcs) \<and> fcs \<noteq> [] \<and>
   (\<forall>fc\<in>set fcs. fc_name fc \<noteq> ''web_search'') \<and>
   (\<forall>i. fault env i = None) \<and> (\<forall>ev\<in>set (reply_stream (first_reply env)). \<not> throws ev) \<longrightarrow>
     fst (run env msg userMessage instructions w) = Inr () \<and>
     (\<exists>pre tail. set pre \<subseteq> stream_calls msg \<and> set tail \<subseteq> {On_dispose} \<and>
        run_calls env msg userMessage instructions w =
          [Send_event (Ai_indicator_update AI_STATE_GENERATING) (msg_cid msg) (msg_id msg),
           Send_message_stream (fullPrompt userMessage instructions)] @ pre @
          [Send_event (Ai_indicator_update AI_STATE_EXTERNAL_SOURCES) (msg_cid msg) (msg_id msg),
           Partial_update_message (msg_id msg)
             [(''text'', message_text (snd (run env msg userMessage instructions w)))],
           Send_event Ai_indicator_clear (msg_cid msg) (msg_id msg)] @ tail) \<and>
     (\<forall>query. Fetch_search query \<notin> set (run_calls env msg userMessage instructions w)) \<and>
     filter is_prompt (run_calls env msg userMessage instructions w) =
       [Send_message_stream (fullPrompt userMessage instructions)]"
proof (intro impI, elim conjE)
  assume fc: "reply_function_calls (first_reply env) = Inr (Some fcs)"
    and ne: "fcs \<noteq> []" and other: "\<forall>fc\<in>set fcs. fc_name fc \<noteq> ''web_search''"
    and nf: "\<forall>i. fault env i = None"
    and nt: "\<forall>ev\<in>set (reply_stream (first_reply env)). \<not> throws ev"
  let ?w2 = "post (Send_message_stream (fullPrompt userMessage instructions))
               (post (state_event AI_STATE_GENERATING msg) w)"
  obtain pre w3 where c: "consume env msg (reply_stream (first_reply env)) ?w2 = (Inr (), w3)"
    and pre: "calls w3 = calls ?w2 @ pre" "set pre \<subseteq> stream_calls msg"
    using consume_shape[OF nt] by blast
  let ?w4 = "post (state_event AI_STATE_EXTERNAL_SOURCES msg) w3"
  let ?w5 = "post (clear_event msg) (post (text_update msg (message_text w3)) ?w4)"
  have a: "awaited env c v = (Inr (), post c v)" for c v
    using nf by (simp add: awaited_ok)
  have g: "generate env msg userMessage instructions w = (Inr (), ?w4)"
    unfolding generate_unfold fc
    by (simp add: tool_round_other[OF ne other] and_then_def a c)
  have t: "run_try env msg userMessage instructions w = (Inr (), ?w5)"
    by (simp add: run_try_def and_then_def g finish_def sendEvent_clear a text_update_def)
  have r: "run env msg userMessage instructions w = (Inr (), dispose ?w5)"
    by (simp add: run_def t)
  have "run_calls env msg userMessage instructions w =
          [state_event AI_STATE_GENERATING msg,
           Send_message_stream (fullPrompt userMessage instructions)] @ pre @
          [state_event AI_STATE_EXTERNAL_SOURCES msg,
           text_update msg (message_text (snd (run env msg userMessage instructions w))),
           clear_event msg] @ (if is_done w3 then [] else [On_dispose])"
    by (simp add: run_calls_def r pre)
  then have "set pre \<subseteq> stream_calls msg \<and>
        set (if is_done w3 then [] else [On_dispose]) \<subseteq> {On_dispose} \<and>
        run_calls env msg userMessage instructions w =
          [Send_event (Ai_indicator_update AI_STATE_GENERATING) (msg_cid msg) (msg_id msg),
           Send_message_stream (fullPrompt userMessage instructions)] @ pre @
          [Send_event (Ai_indicator_update AI_STATE_EXTERNAL_SOURCES) (msg_cid msg) (msg_id msg),
           Partial_update_message (msg_id msg)
             [(''text'', message_text (snd (run env msg userMessage instructions w)))],
           Send_event Ai_indicator_clear (msg_cid msg) (msg_id msg)] @
          (if is_done w3 then [] else [On_dispose])"
    using pre(2) by (simp add: state_event_def text_update_def clear_event_def)
  then have shape: "\<exists>pre tail. set pre \<subseteq> stream_calls msg \<and> set tail \<subseteq> {On_dispose} \<and>
        run_calls env msg userMessage instructions w =
          [Send_event (Ai_indicator_update AI_STATE_GENERATING) (msg_cid msg) (msg_id msg),
           Send_message_stream (fullPrompt userMessage instructions)] @ pre @
          [Send_event (Ai_indicator_update AI_STATE_EXTERNAL_SOURCES) (msg_cid msg) (msg_id msg),
           Partial_update_message (msg_id msg)
             [(''text'', message_text (snd (run env msg userMessage instructions w)))],
           Send_event Ai_indicator_clear (msg_cid msg) (msg_id msg)] @ tail"
    by (intro exI[of _ pre] exI[of _ "if is_done w3 then [] else [On_dispose]"])
  have q: "\<not> is_prompt c \<and> (\<forall>query. c \<noteq> Fetch_search query)" if "c \<in> stream_calls msg" for c
    using that by (auto simp: stream_calls_def clear_event_def text_update_def)
  from shape obtain pre' tail where s: "set pre' \<subseteq> stream_calls msg" "set tail \<subseteq> {On_dispose}"
      "run_calls env msg userMessage instructions w =
          [Send_event (Ai_indicator_update AI_STATE_GENERATING) (msg_cid msg) (msg_id msg),
           Send_message_stream (fullPrompt userMessage instructions)] @ pre' @
          [Send_event (Ai_indicator_update AI_STATE_EXTERNAL_SOURCES) (msg_cid msg) (msg_id msg),
           Partial_update_message (msg_id msg)
             [(''text'', message_text (snd (run env msg userMessage instructions w)))],
           Send_event Ai_indicator_clear (msg_cid msg) (msg_id msg)] @ tail"
    by blast
  have f1: "filter is_prompt pre' = []" using s(1) q by (auto simp: filter_empty_conv)
  have f2: "filter is_prompt tail = []" using s(2) by (auto simp: filter_empty_conv)
  have n1: "Fetch_search query \<notin> set pre'" for query using s(1) q by blast
  have n2: "Fetch_search query \<notin> set tail" for query using s(2) by auto
  have "\<forall>query. Fetch_search query \<notin> set (run_calls env msg userMessage instructions w)"
    unfolding s(3) using n1 n2 by simp
  moreover have "filter is_prompt (run_calls env msg userMessage instructions w) =
       [Send_message_stream (fullPrompt userMessage instructions)]"
    unfolding s(3) using f1 f2 by simp
  moreover have "fst (run env msg userMessage instructions w) = Inr ()" using r by simp
  ultimately show "fst (run env msg userMessage instructions w) = Inr () \<and>
     (\<exists>pre tail. set pre \<subseteq> stream_calls msg \<and> set tail \<subseteq> {On_dispose} \<and>
        run_calls env msg userMessage instructions w =
          [Send_event (Ai_indicator_update AI_STATE_GENERATING) (msg_cid msg) (msg_id msg),
           Send_message_stream (fullPrompt userMessage instructions)] @ pre @
          [Send_event (Ai_indicator_update AI_STATE_EXTERNAL_SOURCES) (msg_cid msg) (msg_id msg),
           Partial_update_message (msg_id msg)
             [(''text'', message_text (snd (run env msg userMessage instructions w)))],
           Send_event Ai_indicator_clear (msg_cid msg) (msg_id msg)] @ tail) \<and>
     (\<forall>query. Fetch_search query \<notin> set (run_calls env msg userMessage instructions w)) \<and>
     filter is_prompt (run_calls env msg userMessage instructions w) =
       [Send_message_stream (fullPrompt userMessage instructions)]"
    using shape by blast
qed

text \<open>The theorem at a response that asks for \<^verbatim>\<open>get_weather\<close>.\<close>

theorem other_tools_only_announced_witness:
  "fst (run other_tool_env msg1 ''What is the weather?'' ''Be concise'' constructed) = Inr () \<and>
   run_calls other_tool_env msg1 ''What is the weather?'' ''Be concise'' constructed =
     [Send_event (Ai_indicator_update AI_STATE_GENERATING) ''messaging:c1'' ''m1'',
      Send_message_stream ''Be concise\<newline>\<newline>User message: What is the weather?'',
      Partial_update_message ''m1'' [(''text'', ''Sun'')],
      Send_event (Ai_indicator_update AI_STATE_EXTERNAL_SOURCES) ''messaging:c1'' ''m1'',
      Partial_update_message ''m1'' [(''text'', ''Sunny today'')],
      Send_event Ai_indicator_clear ''messaging:c1'' ''m1'',
      On_dispose] \<and>
   filter is_prompt
     (run_calls other_tool_env msg1 ''What is the weather?'' ''Be concise'' constructed) =
     [Send_message_stream (fullPrompt ''What is the weather?'' ''Be concise'')]"
proof -
  have h: "reply_function_calls (first_reply other_tool_env) =
             Inr (Some [\<lparr>fc_name = ''get_weather'', fc_args = Some ''Pune''\<rparr>]) \<and>
           [\<lparr>fc_name = ''get_weather'', fc_args = Some ''Pune''\<rparr>] \<noteq> [] \<and>
           (\<forall>fc\<in>set [\<lparr>fc_name = ''get_weather'', fc_args = Some ''Pune''\<rparr>].
              fc_name fc \<noteq> ''web_search'') \<and>
           (\<forall>i. fault other_tool_env i = None) \<and>
           (\<forall>ev\<in>set (reply_stream (first_reply other_tool_env)). \<not> throws ev)"
    by (simp add: other_tool_env_def sunny_env_def quiet_env_def)
  show ?thesis
    using other_tools_only_announced
            [of other_tool_env "[\<lparr>fc_name = ''get_weather'', fc_args = Some ''Pune''\<rparr>]"
               msg1 "''What is the weather?''" "''Be concise''" constructed, THEN mp, OF h]
    by (simp add: run_calls_def run_other_tool) (simp add: constructed_def)
qed

end
